theory Spec2Isabelle
  imports Complex_Main
begin

section \<open>SampleFlow: the running covariance matrix consumer\<close>

text \<open>
  A shallow embedding of \<^verbatim>\<open>SampleFlow::Consumers::CovarianceMatrix<InputType>\<close>
  (\<^verbatim>\<open>include/sampleflow/consumers/covariance_matrix.h\<close>): its constructor, \<^verbatim>\<open>consume\<close>
  and \<^verbatim>\<open>get\<close>.

  The class is a template over the sample type. Here a sample (\<^verbatim>\<open>InputType\<close>, in
  practice \<^verbatim>\<open>std::valarray<scalar_type>\<close>) is a list of scalars, and the scalars are
  the elements of a field of characteristic zero, so that the arithmetic of the
  recursion is exact; rounding of floating point scalars is outside this model. The
  mutex only serialises the calls and is not modelled: every function below is one whole
  call.
\<close>

subsection \<open>Outcomes of a call\<close>

text \<open>
  A C++ call returns, lets an exception escape, or runs into undefined behaviour. The
  body of \<^verbatim>\<open>consume\<close> has no \<^verbatim>\<open>throw\<close>; \<open>DimensionMismatch\<close> is the failure that
  section 7 of the specification names, and the type has it so that "the call raises
  it" can be stated and decided.

  \<open>Returns v ds\<close> also records \<open>ds\<close>, the divisors of the scalar divisions the call
  has executed, in program order. The list is a ghost of the model: no value depends on
  it.
\<close>

datatype failure = DimensionMismatch

datatype fault = Size_Mismatch | Index_Out_Of_Range | Division_By_Zero

datatype 'a outcome = Returns 'a "nat list" | Raises failure | Undefined fault

fun after_divisions :: "nat list \<Rightarrow> 'a outcome \<Rightarrow> 'a outcome" where
  "after_divisions ds (Returns v es) = Returns v (ds @ es)"
| "after_divisions ds (Raises e) = Raises e"
| "after_divisions ds (Undefined u) = Undefined u"

text \<open>Sequencing: the second statement runs on what the first returned.\<close>

fun then_do :: "'a outcome \<Rightarrow> ('a \<Rightarrow> 'b outcome) \<Rightarrow> 'b outcome" where
  "then_do (Returns v ds) f = after_divisions ds (f v)"
| "then_do (Raises e) f = Raises e"
| "then_do (Undefined u) f = Undefined u"

subsection \<open>The sample type: element-wise vector arithmetic\<close>

text \<open>
  The operations \<^verbatim>\<open>consume\<close> uses on \<^verbatim>\<open>InputType\<close>, with the preconditions of
  \<^verbatim>\<open>std::valarray\<close>: the compound assignments \<^verbatim>\<open>a -= b\<close> and \<^verbatim>\<open>a += b\<close> are defined for
  operands of one size only, and \<^verbatim>\<open>a[i]\<close> for \<open>i\<close> below \<^verbatim>\<open>a.size()\<close>; neither is checked.
\<close>

definition vec_minus_assign :: "'a::field_char_0 list \<Rightarrow> 'a list \<Rightarrow> 'a list outcome" where
  "vec_minus_assign a b =
     (if length a = length b then Returns (map2 (\<lambda>x y. x - y) a b) []
      else Undefined Size_Mismatch)"

definition vec_plus_assign :: "'a::field_char_0 list \<Rightarrow> 'a list \<Rightarrow> 'a list outcome" where
  "vec_plus_assign a b =
     (if length a = length b then Returns (map2 (\<lambda>x y. x + y) a b) []
      else Undefined Size_Mismatch)"

definition vec_at :: "'a list \<Rightarrow> nat \<Rightarrow> 'a outcome" where
  "vec_at v i = (if i < length v then Returns (v ! i) [] else Undefined Index_Out_Of_Range)"

text \<open>
  A scalar divided by the sample counter. The division is recorded; a zero divisor is a
  fault of its own, so that "no division by zero" is a property of the outcome.
\<close>

definition scalar_div :: "'a::field_char_0 \<Rightarrow> nat \<Rightarrow> 'a outcome" where
  "scalar_div x n = (if n = 0 then Undefined Division_By_Zero else Returns (x / of_nat n) [n])"

text \<open>\<^verbatim>\<open>a /= n\<close>: one division for each element, from the first.\<close>

fun vec_div_assign :: "'a::field_char_0 list \<Rightarrow> nat \<Rightarrow> 'a list outcome" where
  "vec_div_assign [] n = Returns [] []"
| "vec_div_assign (x # xs) n =
     then_do (scalar_div x n) (\<lambda>y.
     then_do (vec_div_assign xs n) (\<lambda>ys.
     Returns (y # ys) []))"

subsection \<open>The matrix type\<close>

text \<open>
  \<^verbatim>\<open>boost::numeric::ublas::matrix<scalar_type>\<close> is not part of the repository. A dense
  matrix is the list of its rows; the default-constructed matrix has no rows and no
  columns. Element access \<^verbatim>\<open>m(i,j)\<close> is unchecked and defined inside the matrix only.
\<close>

type_synonym 'a matrix = "'a list list"

definition size1 :: "'a matrix \<Rightarrow> nat" where
  "size1 m = length m"

definition size2 :: "'a matrix \<Rightarrow> nat" where
  "size2 m = (case m of [] \<Rightarrow> 0 | r # _ \<Rightarrow> length r)"

definition mat_plus_assign_at :: "'a::field_char_0 matrix \<Rightarrow> nat \<Rightarrow> nat \<Rightarrow> 'a \<Rightarrow> 'a matrix outcome" where
  "mat_plus_assign_at m i j v =
     (if i < length m \<and> j < length (m ! i)
      then Returns (m[i := (m ! i)[j := m ! i ! j + v]]) []
      else Undefined Index_Out_Of_Range)"

text \<open>
  \<^verbatim>\<open>m.resize (r, c)\<close>, with uBLAS's default \<^verbatim>\<open>preserve = true\<close>: the entries the old and
  the new matrix share are kept. The other entries are not written: uBLAS builds the
  new storage with the sized constructor of the matrix, which its documentation
  describes as allocating an uninitialized matrix, and which constructs the elements
  only when the scalar type has a non-trivial default constructor (\<^verbatim>\<open>double\<close> has a
  trivial one). What those entries hold is therefore not fixed by the source; it is the
  parameter \<open>uninit\<close> of the model, the value found at row \<open>i\<close> and column \<open>j\<close> of
  the fresh storage. Zeroed storage is \<open>\<lambda>i j. 0\<close>.
\<close>

definition resize :: "nat \<Rightarrow> nat \<Rightarrow> (nat \<Rightarrow> nat \<Rightarrow> 'a) \<Rightarrow> 'a matrix \<Rightarrow> 'a matrix" where
  "resize r c uninit m =
     map (\<lambda>i. map (\<lambda>j. if i < length m \<and> j < length (m ! i) then m ! i ! j else uninit i j)
                 [0..<c])
         [0..<r]"

subsection \<open>The accumulator\<close>

text \<open>
  Modelled from the spec: \<^verbatim>\<open>types::sample_index\<close>, the type of \<^verbatim>\<open>n_samples\<close>, is
  declared in \<^verbatim>\<open>sampleflow/types.h\<close>, which is not among the sources. Section 3 of the
  specification gives \<open>count\<close> as a non-negative integer, and so the counter is a
  natural number, taken unbounded. The other two fields are the member variables as the
  class declares them.
\<close>

record 'a accumulator =
  current_mean :: "'a list"
  current_covariance_matrix :: "'a matrix"
  n_samples :: nat

text \<open>
  The constructor initialises \<^verbatim>\<open>n_samples (0)\<close> only; the vector and the matrix are
  default-constructed, hence empty.
\<close>

definition CovarianceMatrix :: "'a accumulator" where
  "CovarianceMatrix = \<lparr>current_mean = [], current_covariance_matrix = [], n_samples = 0\<rparr>"

text \<open>
  The statement of the inner loop,
  \<^verbatim>\<open>current_covariance_matrix(i,j) += delta[i]*delta[j]/n_samples\<close>.
\<close>

definition add_outer_product_entry ::
  "'a::field_char_0 list \<Rightarrow> nat \<Rightarrow> nat \<Rightarrow> nat \<Rightarrow> 'a matrix \<Rightarrow> 'a matrix outcome" where
  "add_outer_product_entry delta k i j m =
     then_do (vec_at delta i) (\<lambda>di.
     then_do (vec_at delta j) (\<lambda>dj.
     then_do (scalar_div (di * dj) k) (\<lambda>q.
     mat_plus_assign_at m i j q)))"

text \<open>
  \<^verbatim>\<open>for (unsigned int j=0; j<sample.size(); ++j)\<close>, from the current \<open>j\<close>. The loop
  counters are natural numbers: a sample that overflows \<^verbatim>\<open>unsigned int\<close> has a covariance
  matrix that no memory holds.
\<close>

function loop_j :: "nat \<Rightarrow> 'a::field_char_0 list \<Rightarrow> nat \<Rightarrow> nat \<Rightarrow> nat \<Rightarrow> 'a matrix \<Rightarrow> 'a matrix outcome" where
  "loop_j sz delta k i j m =
     (if j < sz then
        (case add_outer_product_entry delta k i j m of
           Returns m' ds \<Rightarrow> after_divisions ds (loop_j sz delta k i (Suc j) m')
         | Raises e \<Rightarrow> Raises e
         | Undefined u \<Rightarrow> Undefined u)
      else Returns m [])"
  by pat_completeness auto
termination
  by (relation "measure (\<lambda>(sz, delta, k, i, j, m). sz - j)") auto

text \<open>\<^verbatim>\<open>for (unsigned int i=0; i<sample.size(); ++i)\<close>, from the current \<open>i\<close>.\<close>

function loop_i :: "nat \<Rightarrow> 'a::field_char_0 list \<Rightarrow> nat \<Rightarrow> nat \<Rightarrow> 'a matrix \<Rightarrow> 'a matrix outcome" where
  "loop_i sz delta k i m =
     (if i < sz then
        (case loop_j sz delta k i 0 m of
           Returns m' ds \<Rightarrow> after_divisions ds (loop_i sz delta k (Suc i) m')
         | Raises e \<Rightarrow> Raises e
         | Undefined u \<Rightarrow> Undefined u)
      else Returns m [])"
  by pat_completeness auto
termination
  by (relation "measure (\<lambda>(sz, delta, k, i, m). sz - i)") auto

text \<open>The proofs unfold the equations of the two loops one iteration at a time.\<close>

declare loop_j.simps [simp del]

declare loop_i.simps [simp del]

text \<open>
  \<^verbatim>\<open>consume (InputType sample, AuxiliaryData /*aux_data*/)\<close>. In the second branch \<open>k\<close>
  is \<^verbatim>\<open>n_samples\<close> after \<^verbatim>\<open>++n_samples\<close>; \<open>delta\<close> and \<open>update\<close> are both computed from
  the sample and the mean as it was on entry. \<open>uninit\<close> is what the storage allocated
  by \<^verbatim>\<open>resize\<close> holds; only the first branch allocates.
\<close>

definition consume ::
  "(nat \<Rightarrow> nat \<Rightarrow> 'a) \<Rightarrow> 'a::field_char_0 accumulator \<Rightarrow> 'a list \<Rightarrow> 'aux \<Rightarrow> 'a accumulator outcome" where
  "consume uninit this sample aux_data =
     (if n_samples this = 0 then
        Returns
          \<lparr>current_mean = sample,
           current_covariance_matrix =
             resize (length sample) (length sample) uninit (current_covariance_matrix this),
           n_samples = 1\<rparr> []
      else
        (let k = Suc (n_samples this) in
         then_do (vec_minus_assign sample (current_mean this)) (\<lambda>delta.
         then_do (loop_i (length sample) delta k 0 (current_covariance_matrix this)) (\<lambda>cov.
         then_do (vec_minus_assign sample (current_mean this)) (\<lambda>update.
         then_do (vec_div_assign update k) (\<lambda>update'.
         then_do (vec_plus_assign (current_mean this) update') (\<lambda>mean.
         Returns
           \<lparr>current_mean = mean, current_covariance_matrix = cov, n_samples = k\<rparr> [])))))))"

text \<open>
  \<^verbatim>\<open>get () const\<close> returns the matrix by value. The model returns the copy together
  with the accumulator as the call leaves it.
\<close>

definition get :: "'a accumulator \<Rightarrow> 'a matrix \<times> 'a accumulator" where
  "get this = (current_covariance_matrix this, this)"

subsection \<open>Sequences of calls\<close>

text \<open>A caller that consumes the samples of a list, in the order of the list.\<close>

fun consume_all ::
  "(nat \<Rightarrow> nat \<Rightarrow> 'a) \<Rightarrow> 'a::field_char_0 accumulator \<Rightarrow> 'a list list \<Rightarrow> 'a accumulator outcome" where
  "consume_all uninit this [] = Returns this []"
| "consume_all uninit this (sample # samples) =
     then_do (consume uninit this sample ()) (\<lambda>this'. consume_all uninit this' samples)"

text \<open>
  What \<^verbatim>\<open>get\<close> returns after a new accumulator has consumed the samples, when all the
  calls return.
\<close>

definition covariance_after :: "(nat \<Rightarrow> nat \<Rightarrow> 'a) \<Rightarrow> 'a::field_char_0 list list \<Rightarrow> 'a matrix option" where
  "covariance_after uninit samples =
     (case consume_all uninit CovarianceMatrix samples of
        Returns this ds \<Rightarrow> Some (fst (get this))
      | Raises e \<Rightarrow> None
      | Undefined u \<Rightarrow> None)"

text \<open>
  A caller that makes any calls in any order. The state of the caller is the accumulator
  and the matrices that \<^verbatim>\<open>get\<close> has returned to it so far, oldest first.
\<close>

datatype 'a call = Call_consume "'a list" | Call_get

fun run ::
  "(nat \<Rightarrow> nat \<Rightarrow> 'a) \<Rightarrow> 'a::field_char_0 accumulator \<times> 'a matrix list \<Rightarrow> 'a call list
     \<Rightarrow> ('a accumulator \<times> 'a matrix list) outcome" where
  "run uninit (this, got) [] = Returns (this, got) []"
| "run uninit (this, got) (Call_consume sample # calls) =
     then_do (consume uninit this sample ()) (\<lambda>this'. run uninit (this', got) calls)"
| "run uninit (this, got) (Call_get # calls) =
     (case get this of (m, this') \<Rightarrow> run uninit (this', got @ [m]) calls)"

subsection \<open>The specified recursion\<close>

text \<open>
  The accumulator has dimension \<open>n\<close>: the mean has \<open>n\<close> components and the matrix
  \<open>n\<close> rows of \<open>n\<close> entries.
\<close>

definition has_dimension :: "'a accumulator \<Rightarrow> nat \<Rightarrow> bool" where
  "has_dimension this n \<longleftrightarrow>
     length (current_mean this) = n \<and>
     length (current_covariance_matrix this) = n \<and>
     list_all (\<lambda>r. length r = n) (current_covariance_matrix this)"

text \<open>
  The post-state in the words of section 4.1 of the specification, steps 2 to 6:
  \<open>delta = sample - mean\<close> from the mean before the update, \<open>k = count + 1\<close>,
  \<open>covariance[i][j] += delta[i] * delta[j] / k\<close> for every pair, \<open>mean += delta / k\<close>,
  \<open>count = k\<close>. This definition follows the specification, not the source; the
  theorem for claim C1 compares the two.
\<close>

definition spec_delta :: "'a::field_char_0 accumulator \<Rightarrow> 'a list \<Rightarrow> nat \<Rightarrow> 'a" where
  "spec_delta this sample i = sample ! i - current_mean this ! i"

definition spec_consume :: "'a::field_char_0 accumulator \<Rightarrow> 'a list \<Rightarrow> 'a accumulator" where
  "spec_consume this sample =
     (let n = length sample; k = n_samples this + 1 in
      \<lparr>current_mean =
         map (\<lambda>i. current_mean this ! i + spec_delta this sample i / of_nat k) [0..<n],
       current_covariance_matrix =
         map (\<lambda>i. map (\<lambda>j. current_covariance_matrix this ! i ! j
                             + spec_delta this sample i * spec_delta this sample j / of_nat k)
                       [0..<n])
             [0..<n],
       n_samples = k\<rparr>)"

subsection \<open>Predicates of the proofs\<close>

text \<open>The square matrix \<open>m\<close> equals its transpose.\<close>

definition symmetric :: "'a matrix \<Rightarrow> bool" where
  "symmetric m =
     list_all (\<lambda>i. list_all (\<lambda>j. m ! i ! j = m ! j ! i) [0..<length m]) [0..<length m]"

text \<open>
  A call that returned has divided by \<open>k\<close> only; a call that did not return raised
  nothing, and what went wrong was not a division by zero.
\<close>

definition divides_only_by :: "nat \<Rightarrow> 'a outcome \<Rightarrow> bool" where
  "divides_only_by k out =
     (case out of
        Returns v ds \<Rightarrow> list_all (\<lambda>d. d = k) ds
      | Raises e \<Rightarrow> False
      | Undefined u \<Rightarrow> u \<noteq> Division_By_Zero)"

text \<open>
  The accumulator holds a sample, has the dimension of its mean, and its matrix is
  symmetric.
\<close>

definition accumulating_symmetric :: "'a accumulator \<Rightarrow> bool" where
  "accumulating_symmetric this \<longleftrightarrow>
     1 \<le> n_samples this
     \<and> has_dimension this (length (current_mean this))
     \<and> symmetric (current_covariance_matrix this)"

section \<open>Sequencing\<close>

lemma then_do_Returns_iff:
  "then_do a f = Returns w ds \<longleftrightarrow>
     (\<exists>v d1 d2. a = Returns v d1 \<and> f v = Returns w d2 \<and> ds = d1 @ d2)"
proof (cases a)
  case (Returns v d1)
  then show ?thesis by (cases "f v") auto
qed simp_all

section \<open>The loops on an accumulator of the sample's dimension\<close>


lemma add_outer_product_entry_returns:
  assumes "i < length delta" "j < length delta" "k \<noteq> 0" "i < length m" "j < length (m ! i)"
  shows "add_outer_product_entry delta k i j m =
           Returns (m[i := (m ! i)[j := m ! i ! j + delta ! i * delta ! j / of_nat k]]) [k]"
  using assms
  by (simp add: add_outer_product_entry_def vec_at_def scalar_div_def mat_plus_assign_at_def)

lemma loop_j_returns:
  assumes "length delta = sz" "k \<noteq> 0" "i < sz" "i < length m" "length (m ! i) = sz" "j \<le> sz"
  shows "loop_j sz delta k i j m =
           Returns
             (m[i := map (\<lambda>b. if j \<le> b then m ! i ! b + delta ! i * delta ! b / of_nat k
                               else m ! i ! b) [0..<sz]])
             (replicate (sz - j) k)"
  using assms
proof (induction sz delta k i j m rule: loop_j.induct)
  case (1 sz delta k i j m)
  show ?case
  proof (cases "j < sz")
    case False
    with "1.prems" have "j = sz" by simp
    have "map (\<lambda>b. if sz \<le> b then m ! i ! b + delta ! i * delta ! b / of_nat k else m ! i ! b) [0..<sz]
          = m ! i"
      using "1.prems"(5) by (intro nth_equalityI) auto
    then show ?thesis
      using \<open>j = sz\<close> by (simp add: loop_j.simps[of sz delta k i sz m])
  next
    case True
    let ?m' = "m[i := (m ! i)[j := m ! i ! j + delta ! i * delta ! j / of_nat k]]"
    have body: "add_outer_product_entry delta k i j m = Returns ?m' [k]"
      using "1.prems" True by (simp add: add_outer_product_entry_returns)
    have row: "?m' ! i = (m ! i)[j := m ! i ! j + delta ! i * delta ! j / of_nat k]"
      using "1.prems" by simp
    have IH: "loop_j sz delta k i (Suc j) ?m' =
           Returns
             (?m'[i := map (\<lambda>b. if Suc j \<le> b then ?m' ! i ! b + delta ! i * delta ! b / of_nat k
                               else ?m' ! i ! b) [0..<sz]])
             (replicate (sz - Suc j) k)"
      using "1.IH"[OF True body] "1.prems" True by simp
    have rows: "map (\<lambda>b. if Suc j \<le> b then ?m' ! i ! b + delta ! i * delta ! b / of_nat k
                               else ?m' ! i ! b) [0..<sz]
          = map (\<lambda>b. if j \<le> b then m ! i ! b + delta ! i * delta ! b / of_nat k
                               else m ! i ! b) [0..<sz]"
    proof (rule map_cong[OF refl])
      fix b assume "b \<in> set [0..<sz]"
      then have "b < sz" by simp
      show "(if Suc j \<le> b then ?m' ! i ! b + delta ! i * delta ! b / of_nat k else ?m' ! i ! b)
          = (if j \<le> b then m ! i ! b + delta ! i * delta ! b / of_nat k else m ! i ! b)"
      proof (cases "b = j")
        case True
        then show ?thesis using \<open>j < sz\<close> "1.prems"(5) by (simp add: row)
      next
        case False
        then have "(Suc j \<le> b) = (j \<le> b)" by arith
        then show ?thesis using False by (simp add: row)
      qed
    qed
    have log: "k # replicate (sz - Suc j) k = replicate (sz - j) k"
      using True by (simp add: Suc_diff_Suc flip: replicate_Suc)
    show ?thesis
      using True body IH rows log by (simp add: loop_j.simps[of sz delta k i j m])
  qed
qed


lemma loop_i_returns:
  assumes "length delta = sz" "k \<noteq> 0" "length m = sz" "\<forall>r \<in> set m. length r = sz" "i \<le> sz"
  shows "loop_i sz delta k i m =
           Returns
             (map (\<lambda>a. if i \<le> a
                        then map (\<lambda>b. m ! a ! b + delta ! a * delta ! b / of_nat k) [0..<sz]
                        else m ! a) [0..<sz])
             (replicate ((sz - i) * sz) k)"
  using assms
proof (induction sz delta k i m rule: loop_i.induct)
  case (1 sz delta k i m)
  show ?case
  proof (cases "i < sz")
    case False
    with "1.prems" have "i = sz" by simp
    have "map (\<lambda>a. if sz \<le> a
                        then map (\<lambda>b. m ! a ! b + delta ! a * delta ! b / of_nat k) [0..<sz]
                        else m ! a) [0..<sz] = m"
      using "1.prems"(3) by (intro nth_equalityI) auto
    then show ?thesis
      using \<open>i = sz\<close> by (simp add: loop_i.simps[of sz delta k sz m])
  next
    case True
    let ?row = "map (\<lambda>b. m ! i ! b + delta ! i * delta ! b / of_nat k) [0..<sz]"
    let ?m' = "m[i := ?row]"
    have len_row: "length (m ! i) = sz"
      using "1.prems" True by simp
    have inner: "loop_j sz delta k i 0 m = Returns ?m' (replicate sz k)"
      using loop_j_returns[of delta sz k i m 0] "1.prems" True len_row by simp
    have rows': "\<forall>r \<in> set ?m'. length r = sz"
    proof
      fix r assume "r \<in> set ?m'"
      then have "r \<in> insert ?row (set m)"
        using set_update_subset_insert by fastforce
      then show "length r = sz" using "1.prems"(4) by auto
    qed
    have IH: "loop_i sz delta k (Suc i) ?m' =
           Returns
             (map (\<lambda>a. if Suc i \<le> a
                        then map (\<lambda>b. ?m' ! a ! b + delta ! a * delta ! b / of_nat k) [0..<sz]
                        else ?m' ! a) [0..<sz])
             (replicate ((sz - Suc i) * sz) k)"
      using "1.IH"[OF True inner] "1.prems" True rows' by simp
    have rows: "map (\<lambda>a. if Suc i \<le> a
                        then map (\<lambda>b. ?m' ! a ! b + delta ! a * delta ! b / of_nat k) [0..<sz]
                        else ?m' ! a) [0..<sz]
          = map (\<lambda>a. if i \<le> a
                        then map (\<lambda>b. m ! a ! b + delta ! a * delta ! b / of_nat k) [0..<sz]
                        else m ! a) [0..<sz]"
    proof (rule map_cong[OF refl])
      fix a assume "a \<in> set [0..<sz]"
      show "(if Suc i \<le> a
             then map (\<lambda>b. ?m' ! a ! b + delta ! a * delta ! b / of_nat k) [0..<sz]
             else ?m' ! a)
          = (if i \<le> a
             then map (\<lambda>b. m ! a ! b + delta ! a * delta ! b / of_nat k) [0..<sz]
             else m ! a)"
      proof (cases "a = i")
        case True
        then show ?thesis using \<open>i < sz\<close> "1.prems"(3) by simp
      next
        case False
        then have "(Suc i \<le> a) = (i \<le> a)" by arith
        then show ?thesis using False by simp
      qed
    qed
    have "sz - i = Suc (sz - Suc i)"
      using True by arith
    then have "sz + (sz - Suc i) * sz = (sz - i) * sz"
      by simp
    then have log: "replicate sz k @ replicate ((sz - Suc i) * sz) k = replicate ((sz - i) * sz) k"
      by (simp flip: replicate_add)
    show ?thesis
      using True inner IH rows log by (simp add: loop_i.simps[of sz delta k i m])
  qed
qed

lemma vec_div_assign_returns:
  "k \<noteq> 0 \<Longrightarrow>
   vec_div_assign xs k = Returns (map (\<lambda>x. x / of_nat k) xs) (replicate (length xs) k)"
  by (induction xs) (simp_all add: scalar_div_def)

section \<open>The two branches of consume\<close>

text \<open>The first sample: no arithmetic, and the matrix is what \<^verbatim>\<open>resize\<close> allocated.\<close>

lemma first_consume:
  "consume uninit CovarianceMatrix sample aux_data
     = Returns \<lparr>current_mean = sample,
                current_covariance_matrix =
                  map (\<lambda>i. map (\<lambda>j. uninit i j) [0..<length sample]) [0..<length sample],
                n_samples = 1\<rparr> []"
  by (simp add: consume_def CovarianceMatrix_def resize_def)

text \<open>A later sample of the accumulator's dimension: every statement of the branch returns.\<close>

lemma consume_accumulating:
  assumes "1 \<le> n_samples this" and "has_dimension this n" and "length sample = n"
  shows "consume uninit this sample aux_data =
      Returns
        \<lparr>current_mean =
           map2 (\<lambda>x y. x + y) (current_mean this)
             (map (\<lambda>x. x / of_nat (Suc (n_samples this)))
                (map2 (\<lambda>x y. x - y) sample (current_mean this))),
         current_covariance_matrix =
           map (\<lambda>a. map (\<lambda>b. current_covariance_matrix this ! a ! b
                       + map2 (\<lambda>x y. x - y) sample (current_mean this) ! a
                         * map2 (\<lambda>x y. x - y) sample (current_mean this) ! b
                         / of_nat (Suc (n_samples this))) [0..<n]) [0..<n],
         n_samples = Suc (n_samples this)\<rparr>
        (replicate (n * n) (Suc (n_samples this)) @ replicate n (Suc (n_samples this)))"
proof -
  let ?k = "Suc (n_samples this)"
  let ?mean = "current_mean this"
  let ?cov = "current_covariance_matrix this"
  let ?delta = "map2 (\<lambda>x y. x - y) sample ?mean"
  have len: "length ?mean = n" "length ?cov = n" and rows: "\<forall>r \<in> set ?cov. length r = n"
    using assms(2) by (simp_all add: has_dimension_def list_all_iff)
  have d: "vec_minus_assign sample ?mean = Returns ?delta []"
    using assms(3) len by (simp add: vec_minus_assign_def)
  have l: "loop_i n ?delta ?k 0 ?cov =
      Returns (map (\<lambda>a. map (\<lambda>b. ?cov ! a ! b + ?delta ! a * ?delta ! b / of_nat ?k) [0..<n]) [0..<n])
        (replicate (n * n) ?k)"
    using loop_i_returns[of ?delta n ?k ?cov 0] assms(3) len rows by simp
  have u: "vec_div_assign ?delta ?k = Returns (map (\<lambda>x. x / of_nat ?k) ?delta) (replicate n ?k)"
    using vec_div_assign_returns[of ?k ?delta] assms(3) len by simp
  have p: "vec_plus_assign ?mean (map (\<lambda>x. x / of_nat ?k) ?delta)
      = Returns (map2 (\<lambda>x y. x + y) ?mean (map (\<lambda>x. x / of_nat ?k) ?delta)) []"
    using assms(3) len by (simp add: vec_plus_assign_def)
  show ?thesis
    using assms(1) assms(3) d l u p by (simp add: consume_def Let_def)
qed

lemma consume_returns_same_length:
  assumes "1 \<le> n_samples this" and "consume uninit this sample aux_data = Returns this' ds"
  shows "length sample = length (current_mean this)"
proof (rule ccontr)
  assume "length sample \<noteq> length (current_mean this)"
  then have "consume uninit this sample aux_data = Undefined Size_Mismatch"
    using assms(1) by (simp add: consume_def Let_def vec_minus_assign_def)
  then show False using assms(2) by simp
qed

lemma consume_increments_n_samples:
  assumes "n_samples this \<noteq> 0" and "consume uninit this sample aux_data = Returns this' ds"
  shows "n_samples this' = Suc (n_samples this)"
  using assms by (auto simp: consume_def Let_def then_do_Returns_iff)

section \<open>The divisions of a call\<close>

lemma divides_only_by_Returns_Nil: "divides_only_by k (Returns v [])"
  by (simp add: divides_only_by_def)

lemma divides_only_by_after:
  "list_all (\<lambda>d. d = k) ds \<Longrightarrow> divides_only_by k out \<Longrightarrow> divides_only_by k (after_divisions ds out)"
  by (cases out) (simp_all add: divides_only_by_def)

lemma divides_only_by_then_do:
  assumes "divides_only_by k a" and "\<And>v. divides_only_by k (f v)"
  shows "divides_only_by k (then_do a f)"
proof (cases a)
  case (Returns v ds)
  then have "list_all (\<lambda>d. d = k) ds"
    using assms(1) by (simp add: divides_only_by_def)
  then show ?thesis
    using Returns assms(2) by (simp add: divides_only_by_after)
next
  case (Raises e)
  then show ?thesis using assms(1) by (simp add: divides_only_by_def)
next
  case (Undefined u)
  then show ?thesis using assms(1) by (simp add: divides_only_by_def)
qed

lemma divides_only_by_scalar_div: "k \<noteq> 0 \<Longrightarrow> divides_only_by k (scalar_div x k)"
  by (simp add: scalar_div_def divides_only_by_def)

lemma divides_only_by_vec_at: "divides_only_by k (vec_at v i)"
  by (simp add: vec_at_def divides_only_by_def)

lemma divides_only_by_vec_minus_assign: "divides_only_by k (vec_minus_assign a b)"
  by (simp add: vec_minus_assign_def divides_only_by_def)

lemma divides_only_by_vec_plus_assign: "divides_only_by k (vec_plus_assign a b)"
  by (simp add: vec_plus_assign_def divides_only_by_def)

lemma divides_only_by_mat_plus_assign_at: "divides_only_by k (mat_plus_assign_at m i j v)"
  by (simp add: mat_plus_assign_at_def divides_only_by_def)

lemma divides_only_by_vec_div_assign: "k \<noteq> 0 \<Longrightarrow> divides_only_by k (vec_div_assign xs k)"
  by (induction xs)
     (simp_all add: divides_only_by_Returns_Nil divides_only_by_then_do divides_only_by_scalar_div)

lemma divides_only_by_entry:
  "k \<noteq> 0 \<Longrightarrow> divides_only_by k (add_outer_product_entry delta k i j m)"
  unfolding add_outer_product_entry_def
  by (intro divides_only_by_then_do divides_only_by_vec_at divides_only_by_scalar_div
        divides_only_by_mat_plus_assign_at)

lemma divides_only_by_loop_j:
  "k \<noteq> 0 \<Longrightarrow> divides_only_by k (loop_j sz delta k i j m)"
proof (induction sz delta k i j m rule: loop_j.induct)
  case (1 sz delta k i j m)
  show ?case
  proof (cases "j < sz")
    case False
    then show ?thesis
      by (simp add: loop_j.simps[of sz delta k i j m] divides_only_by_Returns_Nil)
  next
    case True
    have body: "divides_only_by k (add_outer_product_entry delta k i j m)"
      using "1.prems" by (rule divides_only_by_entry)
    show ?thesis
    proof (cases "add_outer_product_entry delta k i j m")
      case (Returns m' ds)
      then have "list_all (\<lambda>d. d = k) ds"
        using body by (simp add: divides_only_by_def)
      moreover have "divides_only_by k (loop_j sz delta k i (Suc j) m')"
        using "1.IH"[OF True Returns "1.prems"] .
      ultimately show ?thesis
        using True Returns by (simp add: loop_j.simps[of sz delta k i j m] divides_only_by_after)
    next
      case (Raises e)
      then show ?thesis
        using body by (simp add: divides_only_by_def)
    next
      case (Undefined u)
      then show ?thesis
        using True body by (simp add: loop_j.simps[of sz delta k i j m] divides_only_by_def)
    qed
  qed
qed

lemma divides_only_by_loop_i:
  "k \<noteq> 0 \<Longrightarrow> divides_only_by k (loop_i sz delta k i m)"
proof (induction sz delta k i m rule: loop_i.induct)
  case (1 sz delta k i m)
  show ?case
  proof (cases "i < sz")
    case False
    then show ?thesis
      by (simp add: loop_i.simps[of sz delta k i m] divides_only_by_Returns_Nil)
  next
    case True
    have inner: "divides_only_by k (loop_j sz delta k i 0 m)"
      using "1.prems" by (rule divides_only_by_loop_j)
    show ?thesis
    proof (cases "loop_j sz delta k i 0 m")
      case (Returns m' ds)
      then have "list_all (\<lambda>d. d = k) ds"
        using inner by (simp add: divides_only_by_def)
      moreover have "divides_only_by k (loop_i sz delta k (Suc i) m')"
        using "1.IH"[OF True Returns "1.prems"] .
      ultimately show ?thesis
        using True Returns by (simp add: loop_i.simps[of sz delta k i m] divides_only_by_after)
    next
      case (Raises e)
      then show ?thesis
        using inner by (simp add: divides_only_by_def)
    next
      case (Undefined u)
      then show ?thesis
        using True inner by (simp add: loop_i.simps[of sz delta k i m] divides_only_by_def)
    qed
  qed
qed

lemma divides_only_by_consume:
  assumes "n_samples this \<noteq> 0"
  shows "divides_only_by (Suc (n_samples this)) (consume uninit this sample aux_data)"
  using assms
  by (simp add: consume_def Let_def divides_only_by_then_do divides_only_by_vec_minus_assign
        divides_only_by_loop_i divides_only_by_vec_div_assign divides_only_by_vec_plus_assign
        divides_only_by_Returns_Nil)

section \<open>What the caller holds\<close>

text \<open>The matrices that \<^verbatim>\<open>get\<close> has returned stay as they are, whatever is called next.\<close>

lemma run_keeps_returned:
  "run uninit (this, got) calls = Returns (this', got') ds \<Longrightarrow> take (length got) got' = got"
proof (induction calls arbitrary: this got ds)
  case Nil
  then show ?case by simp
next
  case (Cons c calls)
  show ?case
  proof (cases c)
    case (Call_consume sample)
    with Cons.prems obtain v d2 where "run uninit (v, got) calls = Returns (this', got') d2"
      by (auto simp: then_do_Returns_iff)
    then show ?thesis by (rule Cons.IH)
  next
    case Call_get
    with Cons.prems have "run uninit (this, got @ [current_covariance_matrix this]) calls
        = Returns (this', got') ds"
      by (simp add: get_def)
    then have "take (length (got @ [current_covariance_matrix this])) got'
        = got @ [current_covariance_matrix this]"
      by (rule Cons.IH)
    then have "take (length got) (take (Suc (length got)) got')
        = take (length got) (got @ [current_covariance_matrix this])"
      by simp
    then show ?thesis by (simp add: min_def)
  qed
qed

section \<open>Symmetry\<close>

lemma symmetric_iff:
  "symmetric m \<longleftrightarrow> (\<forall>i < length m. \<forall>j < length m. m ! i ! j = m ! j ! i)"
  by (auto simp: symmetric_def list_all_iff)

lemma consume_keeps_symmetry:
  assumes "1 \<le> n_samples this" and "has_dimension this n" and "length sample = n"
    and "symmetric (current_covariance_matrix this)"
    and "consume uninit this sample aux_data = Returns this' ds"
  shows "has_dimension this' n \<and> symmetric (current_covariance_matrix this') \<and> 2 \<le> n_samples this'"
proof -
  let ?k = "Suc (n_samples this)"
  let ?cov = "current_covariance_matrix this"
  let ?delta = "map2 (\<lambda>x y. x - y) sample (current_mean this)"
  have len: "length (current_mean this) = n" "length ?cov = n"
    using assms(2) by (simp_all add: has_dimension_def)
  have eq: "this' =
        \<lparr>current_mean =
           map2 (\<lambda>x y. x + y) (current_mean this)
             (map (\<lambda>x. x / of_nat ?k) ?delta),
         current_covariance_matrix =
           map (\<lambda>a. map (\<lambda>b. ?cov ! a ! b + ?delta ! a * ?delta ! b / of_nat ?k) [0..<n]) [0..<n],
         n_samples = ?k\<rparr>"
    using assms(5) unfolding consume_accumulating[OF assms(1-3)] by simp
  have sym: "\<And>i j. i < n \<Longrightarrow> j < n \<Longrightarrow> ?cov ! i ! j = ?cov ! j ! i"
    using assms(4) len by (simp add: symmetric_iff)
  have dim: "has_dimension this' n"
    unfolding eq using assms(3) len by (simp add: has_dimension_def list_all_iff)
  have "symmetric (current_covariance_matrix this')"
    unfolding eq using sym by (simp add: symmetric_iff mult.commute)
  moreover have "2 \<le> n_samples this'"
    unfolding eq using assms(1) by simp
  ultimately show ?thesis using dim by simp
qed

lemma consume_keeps_accumulating_symmetric:
  assumes "accumulating_symmetric this" and "consume uninit this sample aux_data = Returns this' ds"
  shows "accumulating_symmetric this'"
proof -
  let ?n = "length (current_mean this)"
  have pos: "1 \<le> n_samples this" and dim: "has_dimension this ?n"
    and sym: "symmetric (current_covariance_matrix this)"
    using assms(1) by (simp_all add: accumulating_symmetric_def)
  have len: "length sample = ?n"
    using pos assms(2) by (rule consume_returns_same_length)
  have "has_dimension this' ?n \<and> symmetric (current_covariance_matrix this') \<and> 2 \<le> n_samples this'"
    using pos dim len sym assms(2) by (rule consume_keeps_symmetry)
  moreover from this have "length (current_mean this') = ?n"
    by (simp add: has_dimension_def)
  ultimately show ?thesis
    by (simp add: accumulating_symmetric_def)
qed

lemma first_consume_accumulating_symmetric:
  assumes "\<And>i j. uninit i j = uninit j i"
    and "consume uninit CovarianceMatrix sample aux_data = Returns this' ds"
  shows "accumulating_symmetric this'"
proof -
  have "this' = \<lparr>current_mean = sample,
                current_covariance_matrix =
                  map (\<lambda>i. map (\<lambda>j. uninit i j) [0..<length sample]) [0..<length sample],
                n_samples = 1\<rparr>"
    using assms(2) unfolding first_consume by simp
  then show ?thesis
    using assms(1)[of _ _]
    by (simp add: accumulating_symmetric_def has_dimension_def list_all_iff symmetric_iff)
qed

lemma run_keeps_symmetry:
  assumes "\<And>i j. uninit i j = uninit j i"
    and "this = CovarianceMatrix \<or> accumulating_symmetric this"
    and "run uninit (this, got) calls = Returns (this', got') ds"
  shows "this' = CovarianceMatrix \<or> accumulating_symmetric this'"
  using assms(2,3)
proof (induction calls arbitrary: this got ds)
  case Nil
  then show ?case by simp
next
  case (Cons c calls)
  show ?case
  proof (cases c)
    case (Call_consume sample)
    with Cons.prems(2) obtain v d1 d2 where
      c: "consume uninit this sample () = Returns v d1"
      and r: "run uninit (v, got) calls = Returns (this', got') d2"
      by (auto simp: then_do_Returns_iff)
    have "accumulating_symmetric v"
    proof (cases "this = CovarianceMatrix")
      case True
      then show ?thesis
        using assms(1) c first_consume_accumulating_symmetric[of uninit sample "()" v d1] by simp
    next
      case False
      then have "accumulating_symmetric this" using Cons.prems(1) by simp
      then show ?thesis using c by (rule consume_keeps_accumulating_symmetric)
    qed
    then have "v = CovarianceMatrix \<or> accumulating_symmetric v" by simp
    then show ?thesis using r by (rule Cons.IH)
  next
    case Call_get
    with Cons.prems(2) have "run uninit (this, got @ [current_covariance_matrix this]) calls
        = Returns (this', got') ds"
      by (simp add: get_def)
    with Cons.prems(1) show ?thesis by (rule Cons.IH)
  qed
qed

section \<open>The update of an accumulating state\<close>

text \<open>
  Claim C1. On an accumulator that holds at least one sample and has dimension \<open>n\<close>,
  consuming a sample of length \<open>n\<close> returns, and the state it leaves is exactly the one
  the specified recursion gives for \<open>k = count + 1\<close>: every entry \<open>(i, j)\<close> of the
  covariance matrix grows by \<open>delta[i] * delta[j] / k\<close>, the mean grows by \<open>delta / k\<close>,
  both with \<open>delta\<close> taken from the mean before the update, and the count becomes \<open>k\<close>.
  The call divides \<open>n * n + n\<close> times, each time by \<open>k\<close>.
\<close>

theorem consume_refines_spec_recursion:
  assumes "1 \<le> n_samples this" and "has_dimension this n" and "length sample = n"
  shows "consume uninit this sample aux_data =
           Returns (spec_consume this sample) (replicate (n * n + n) (n_samples this + 1))"
proof -
  let ?k = "Suc (n_samples this)"
  let ?mean = "current_mean this"
  let ?cov = "current_covariance_matrix this"
  let ?delta = "map2 (\<lambda>x y. x - y) sample ?mean"
  have len: "length ?mean = n"
    using assms(2) by (simp add: has_dimension_def)
  have delta_nth: "\<And>i. i < n \<Longrightarrow> ?delta ! i = spec_delta this sample i"
    using assms(3) len by (simp add: spec_delta_def)
  have mean_eq: "map2 (\<lambda>x y. x + y) ?mean (map (\<lambda>x. x / of_nat ?k) ?delta)
      = map (\<lambda>i. ?mean ! i + spec_delta this sample i / of_nat ?k) [0..<n]"
    using assms(3) len by (intro nth_equalityI) (simp_all add: spec_delta_def)
  have cov_eq: "map (\<lambda>a. map (\<lambda>b. ?cov ! a ! b + ?delta ! a * ?delta ! b / of_nat ?k) [0..<n]) [0..<n]
      = map (\<lambda>i. map (\<lambda>j. ?cov ! i ! j + spec_delta this sample i * spec_delta this sample j / of_nat ?k)
                       [0..<n]) [0..<n]"
    using delta_nth by simp
  show ?thesis
    unfolding consume_accumulating[OF assms] mean_eq cov_eq
    using assms(3) by (simp add: spec_consume_def Let_def replicate_add)
qed

theorem consume_refines_spec_recursion_witness:
  "has_dimension
     \<lparr>current_mean = [1, 2 :: rat], current_covariance_matrix = [[0, 1], [1, 4]], n_samples = 1\<rparr> 2
   \<and> consume (\<lambda>i j. 9)
        \<lparr>current_mean = [1, 2 :: rat], current_covariance_matrix = [[0, 1], [1, 4]], n_samples = 1\<rparr>
        [3, 5] ''aux''
     = Returns
         \<lparr>current_mean = [2, 7 / 2], current_covariance_matrix = [[2, 4], [4, 17 / 2]],
            n_samples = 2\<rparr>
         [2, 2, 2, 2, 2, 2]"
proof -
  let ?st = "\<lparr>current_mean = [1, 2 :: rat], current_covariance_matrix = [[0, 1], [1, 4]], n_samples = 1\<rparr>"
  have h1: "1 \<le> n_samples ?st" by simp
  have h2: "has_dimension ?st 2" by (simp add: has_dimension_def)
  have h3: "length [3, 5 :: rat] = 2" by simp
  have "spec_consume ?st [3, 5]
      = \<lparr>current_mean = [2, 7 / 2], current_covariance_matrix = [[2, 4], [4, 17 / 2]], n_samples = 2\<rparr>"
    by code_simp
  moreover have "replicate (2 * 2 + 2) (n_samples ?st + 1) = [2, 2, 2, 2, 2, 2]"
    by code_simp
  ultimately show ?thesis
    using h2 consume_refines_spec_recursion[OF h1 h2 h3, of "\<lambda>i j. 9" "''aux''"] by simp
qed

section \<open>A sample of another length\<close>

text \<open>
  Claim C2, as amended. On an accumulator that holds at least one sample and has
  dimension \<open>n\<close>, \<^verbatim>\<open>consume\<close> does not check the length of the sample and raises no
  failure: with a sample whose length differs from \<open>n\<close> the call has undefined
  behaviour, at the subtraction \<^verbatim>\<open>delta -= current_mean\<close> of two vectors of different
  sizes. Nothing is then promised about the count, the mean or the matrix.
\<close>

theorem consume_wrong_length_is_undefined:
  assumes "1 \<le> n_samples this" and "has_dimension this n" and "length sample \<noteq> n"
  shows "consume uninit this sample aux_data = Undefined Size_Mismatch"
  using assms by (simp add: consume_def Let_def vec_minus_assign_def has_dimension_def)

theorem consume_wrong_length_is_undefined_witness:
  "has_dimension
     \<lparr>current_mean = [1, 2 :: rat], current_covariance_matrix = [[0, 0], [0, 0]], n_samples = 1\<rparr> 2
   \<and> consume (\<lambda>i j. 0)
        \<lparr>current_mean = [1, 2 :: rat], current_covariance_matrix = [[0, 0], [0, 0]], n_samples = 1\<rparr>
        [1, 2, 3] () = Undefined Size_Mismatch"
proof -
  let ?st = "\<lparr>current_mean = [1, 2 :: rat], current_covariance_matrix = [[0, 0], [0, 0]], n_samples = 1\<rparr>"
  have h1: "1 \<le> n_samples ?st" by simp
  have h2: "has_dimension ?st 2" by (simp add: has_dimension_def)
  have h3: "length [1, 2, 3 :: rat] \<noteq> 2" by simp
  show ?thesis
    using h2 consume_wrong_length_is_undefined[OF h1 h2 h3, of "\<lambda>i j. 0" "()"] by simp
qed

text \<open>
  Claim C2 as stated fails: after a sample of dimension 2 (here on zeroed storage), a
  sample of dimension 3 does not make \<^verbatim>\<open>consume\<close> raise \<open>DimensionMismatch\<close>.
\<close>

theorem consume_raises_no_dimension_mismatch:
  "consume_all (\<lambda>i j. 0) CovarianceMatrix [[1, 2 :: rat]]
     = Returns \<lparr>current_mean = [1, 2], current_covariance_matrix = [[0, 0], [0, 0]], n_samples = 1\<rparr> []
   \<and> consume (\<lambda>i j. 0)
        \<lparr>current_mean = [1, 2 :: rat], current_covariance_matrix = [[0, 0], [0, 0]], n_samples = 1\<rparr>
        [1, 2, 3] () \<noteq> Raises DimensionMismatch"
  by code_simp

section \<open>The first sample\<close>

text \<open>
  Claim C3 does not hold of the code. The first \<^verbatim>\<open>consume\<close> sets the count to 1 and the
  mean to the sample, but it only resizes the matrix and never writes to it: where the
  storage that \<^verbatim>\<open>resize\<close> allocated holds 7, \<^verbatim>\<open>get\<close> returns the matrix \<open>[[7]]\<close> and not
  the zero matrix that the claim, and the comment in the source, promise.
\<close>

theorem first_consume_returns_uninitialised_matrix:
  "consume (\<lambda>i j. 7) CovarianceMatrix [1 :: rat] ()
     = Returns \<lparr>current_mean = [1], current_covariance_matrix = [[7]], n_samples = 1\<rparr> []
   \<and> covariance_after (\<lambda>i j. 7) [[1 :: rat]] = Some [[7]]
   \<and> covariance_after (\<lambda>i j. 7) [[1 :: rat]] \<noteq> Some [[0]]"
  by code_simp

text \<open>
  Claim C4 does not hold of the code, for the same reason as claim C3. Consuming 1, 3
  and 5 leaves the mean 3, and adds 2 and then 3 to the single entry of the matrix; the
  entry started from what the storage held, here 7, so that \<^verbatim>\<open>get\<close> returns \<open>[[12]]\<close>
  and not \<open>[[5]]\<close>.
\<close>

theorem worked_recursion_on_uninitialised_matrix:
  "consume_all (\<lambda>i j. 7) CovarianceMatrix [[1 :: rat], [3], [5]]
     = Returns \<lparr>current_mean = [3], current_covariance_matrix = [[12]], n_samples = 3\<rparr> [2, 2, 3, 3]
   \<and> covariance_after (\<lambda>i j. 7) [[1 :: rat]] = Some [[7]]
   \<and> covariance_after (\<lambda>i j. 7) [[1 :: rat], [3]] = Some [[9]]
   \<and> covariance_after (\<lambda>i j. 7) [[1 :: rat], [3], [5]] = Some [[12]]
   \<and> covariance_after (\<lambda>i j. 7) [[1 :: rat], [3], [5]] \<noteq> Some [[5]]"
  by code_simp

section \<open>Reading the matrix\<close>

text \<open>
  Claim C5. On an accumulator as the constructor leaves it, \<^verbatim>\<open>get\<close> returns the
  default-constructed matrix: no rows and no columns, hence no entry of any content.
\<close>

theorem get_of_new_accumulator_is_empty:
  "fst (get CovarianceMatrix) = []
   \<and> size1 (fst (get CovarianceMatrix)) = 0
   \<and> size2 (fst (get CovarianceMatrix)) = 0"
  by (simp add: get_def CovarianceMatrix_def size1_def size2_def)

text \<open>
  Claim C6. \<^verbatim>\<open>get\<close> leaves the accumulator as it found it, whether or not a sample has
  been consumed, and what it returns is a copy of the matrix: the value a call of \<^verbatim>\<open>get\<close>
  handed to the caller is still the matrix of that moment after any calls that follow
  (and so are the values handed out before it).
\<close>

theorem get_is_pure_observer:
  "snd (get this) = this
   \<and> fst (get this) = current_covariance_matrix this
   \<and> (run uninit (this, got) (Call_get # calls) = Returns (this', got') ds \<longrightarrow>
        take (length got) got' = got \<and> got' ! length got = current_covariance_matrix this)"
proof -
  have "take (length got) got' = got \<and> got' ! length got = current_covariance_matrix this"
    if ret: "run uninit (this, got) (Call_get # calls) = Returns (this', got') ds"
  proof -
    let ?m = "current_covariance_matrix this"
    have later: "run uninit (this, got @ [?m]) calls = Returns (this', got') ds"
      using ret by (simp add: get_def)
    have pre: "take (Suc (length got)) got' = got @ [?m]"
      using run_keeps_returned[OF later] by simp
    have "got' ! length got = take (Suc (length got)) got' ! length got"
      by simp
    also have "\<dots> = ?m"
      unfolding pre by simp
    finally have snap: "got' ! length got = ?m" .
    have "take (length got) got' = got"
      using ret by (rule run_keeps_returned)
    with snap show ?thesis by simp
  qed
  then show ?thesis by (simp add: get_def)
qed

theorem get_is_pure_observer_witness:
  "run (\<lambda>i j. 0) (\<lparr>current_mean = [1 :: rat], current_covariance_matrix = [[0]], n_samples = 1\<rparr>, [])
       (Call_get # [Call_consume [3], Call_get])
     = Returns (\<lparr>current_mean = [2], current_covariance_matrix = [[2]], n_samples = 2\<rparr>,
                [[[0]], [[2]]]) [2, 2]
   \<and> [[[0]], [[2 :: rat]]] ! length ([] :: rat matrix list) = [[0]]"
proof -
  let ?st = "\<lparr>current_mean = [1 :: rat], current_covariance_matrix = [[0]], n_samples = 1\<rparr>"
  let ?st' = "\<lparr>current_mean = [2 :: rat], current_covariance_matrix = [[2]], n_samples = 2\<rparr>"
  have ret: "run (\<lambda>i j. 0) (?st, []) (Call_get # [Call_consume [3], Call_get])
      = Returns (?st', [[[0]], [[2]]]) [2, 2]"
    by code_simp
  have "[[[0]], [[2 :: rat]]] ! length ([] :: rat matrix list) = current_covariance_matrix ?st"
    using get_is_pure_observer[of ?st "\<lambda>i j. 0" "[]" "[Call_consume [3], Call_get]" ?st'
        "[[[0]], [[2]]]" "[2, 2]"] ret
    by blast
  then show ?thesis using ret by simp
qed

section \<open>Symmetry of the reachable states\<close>

text \<open>
  Claim C7 does not hold of the code, for the same reason as claim C3: the first
  \<^verbatim>\<open>consume\<close> leaves in the matrix what the storage held. Where the storage holds 1 at
  row 0 and column 1 and 0 elsewhere, the state after one sample of dimension 2 has the
  matrix \<open>[[0, 1], [0, 0]]\<close>, and the next sample adds the same amount to the entries
  \<open>(0, 1)\<close> and \<open>(1, 0)\<close>, which stay different.
\<close>

theorem first_consume_leaves_asymmetric_matrix:
  "run (\<lambda>i j. if i = 0 \<and> j = 1 then 1 else 0) (CovarianceMatrix, [])
       [Call_consume [1, 2 :: rat], Call_get, Call_consume [3, 5], Call_get]
     = Returns (\<lparr>current_mean = [2, 7 / 2], current_covariance_matrix = [[2, 4], [3, 9 / 2]],
                 n_samples = 2\<rparr>,
                [[[0, 1], [0, 0]], [[2, 4], [3, 9 / 2]]]) [2, 2, 2, 2, 2, 2]
   \<and> \<not> symmetric [[0, 1], [0, 0 :: rat]]
   \<and> \<not> symmetric [[2, 4], [3, 9 / 2 :: rat]]"
  by code_simp

section \<open>The order of the samples\<close>

text \<open>
  Claim C8 as stated fails: on the same storage (here zeroed), the samples 1, 3, 5 and
  their reverse 5, 3, 1 leave the same covariance matrix, \<open>[[5]]\<close>.
\<close>

theorem reverse_of_1_3_5_gives_same_covariance:
  "covariance_after (\<lambda>i j. 0) [[1 :: rat], [3], [5]] = Some [[5]]
   \<and> covariance_after (\<lambda>i j. 0) (rev [[1 :: rat], [3], [5]]) = Some [[5]]"
  by code_simp

text \<open>
  Claim C8, as amended. The update does depend on the order of the samples: whatever
  the storage held, the one-dimensional samples 0, 0, 3 and their reverse 3, 0, 0 leave
  different covariance matrices, and so do the samples 1, 3, 5 in the orders 1, 3, 5 and
  1, 5, 3.
\<close>

theorem covariance_depends_on_order:
  "covariance_after uninit [[0 :: rat], [0], [3]] \<noteq> covariance_after uninit (rev [[0], [0], [3]])
   \<and> covariance_after uninit [[1 :: rat], [3], [5]] \<noteq> covariance_after uninit [[1], [5], [3]]"
proof -
  have step: "consume uninit \<lparr>current_mean = [m], current_covariance_matrix = [[c]], n_samples = Suc k\<rparr> [x] ()
      = Returns \<lparr>current_mean = [m + (x - m) / of_nat (Suc (Suc k))],
                 current_covariance_matrix = [[c + (x - m) * (x - m) / of_nat (Suc (Suc k))]],
                 n_samples = Suc (Suc k)\<rparr> [Suc (Suc k), Suc (Suc k)]"
    for m c x :: rat and k
    using consume_accumulating[of "\<lparr>current_mean = [m], current_covariance_matrix = [[c]], n_samples = Suc k\<rparr>"
        1 "[x]" uninit "()"]
    by (simp add: has_dimension_def)
  have first: "consume uninit CovarianceMatrix [x :: rat] ()
      = Returns \<lparr>current_mean = [x], current_covariance_matrix = [[uninit 0 0]], n_samples = Suc 0\<rparr> []" for x
    by (simp add: first_consume)
  have three: "covariance_after uninit [[x], [y], [z :: rat]]
      = Some [[uninit 0 0 + (y - x) * (y - x) / 2
               + (z - (x + (y - x) / 2)) * (z - (x + (y - x) / 2)) / 3]]" for x y z
    by (simp add: covariance_after_def first step get_def)
  show ?thesis
    unfolding rev.simps append.simps three by simp
qed

section \<open>The auxiliary data\<close>

text \<open>
  Claim C9. \<^verbatim>\<open>consume\<close> never reads its second argument: with any two values for it,
  the call has the same outcome, that is the same fault or the same state after the
  call (count, mean and matrix, hence the same result of any later \<^verbatim>\<open>get\<close>).
\<close>

theorem consume_ignores_aux_data:
  "consume uninit this sample aux1 = consume uninit this sample aux2"
  by (simp add: consume_def)

section \<open>The divisors\<close>

text \<open>
  Claim C10. No call of \<^verbatim>\<open>consume\<close> divides by zero, whatever the state and the sample.
  A call that returns on an empty accumulator has not divided at all; a call that
  returns on an accumulator with at least one sample has divided by the incremented
  counter only, which is the count it leaves and is at least 2.
\<close>

theorem consume_never_divides_by_zero:
  "consume uninit this sample aux_data \<noteq> Undefined Division_By_Zero
   \<and> (consume uninit this sample aux_data = Returns this' ds \<longrightarrow>
        (n_samples this = 0 \<longrightarrow> ds = [])
        \<and> (1 \<le> n_samples this \<longrightarrow> (\<forall>d \<in> set ds. d = n_samples this' \<and> 2 \<le> d)))"
proof (cases "n_samples this = 0")
  case True
  then show ?thesis by (simp add: consume_def)
next
  case False
  have dob: "divides_only_by (Suc (n_samples this)) (consume uninit this sample aux_data)"
    using False by (rule divides_only_by_consume)
  have no_zero: "consume uninit this sample aux_data \<noteq> Undefined Division_By_Zero"
    using dob by (auto simp: divides_only_by_def)
  have "\<forall>d \<in> set ds. d = n_samples this' \<and> 2 \<le> d"
    if ret: "consume uninit this sample aux_data = Returns this' ds"
  proof -
    have "n_samples this' = Suc (n_samples this)"
      using False ret by (rule consume_increments_n_samples)
    moreover have "\<forall>d \<in> set ds. d = Suc (n_samples this)"
      using dob ret by (simp add: divides_only_by_def list_all_iff)
    ultimately show ?thesis using False by auto
  qed
  then show ?thesis using no_zero False by simp
qed

theorem consume_never_divides_by_zero_witness:
  "consume (\<lambda>i j. 0) \<lparr>current_mean = [1 :: rat], current_covariance_matrix = [[0]], n_samples = 1\<rparr> [3] ()
     = Returns \<lparr>current_mean = [2], current_covariance_matrix = [[2]], n_samples = 2\<rparr> [2, 2]
   \<and> list_all (\<lambda>d. d = 2 \<and> 2 \<le> d) [2, 2 :: nat]
   \<and> consume (\<lambda>i j. 0) \<lparr>current_mean = [1 :: rat], current_covariance_matrix = [[0]], n_samples = 1\<rparr> [3] ()
       \<noteq> Undefined Division_By_Zero"
proof -
  let ?st = "\<lparr>current_mean = [1 :: rat], current_covariance_matrix = [[0]], n_samples = 1\<rparr>"
  let ?st' = "\<lparr>current_mean = [2 :: rat], current_covariance_matrix = [[2]], n_samples = 2\<rparr>"
  have ret: "consume (\<lambda>i j. 0) ?st [3] () = Returns ?st' [2, 2]"
    by code_simp
  have h: "1 \<le> n_samples ?st" by simp
  have "\<forall>d \<in> set [2, 2 :: nat]. d = n_samples ?st' \<and> 2 \<le> d"
    using consume_never_divides_by_zero[of "\<lambda>i j. 0" ?st "[3]" "()" ?st' "[2, 2]"] ret h
    by blast
  then show ?thesis
    using ret by simp
qed

section \<open>Further properties\<close>

text \<open>
  The first sample, in general: a new accumulator that consumes a sample of length \<open>n\<close>
  returns without a division, with count 1, the sample as mean, and the \<open>n\<close> by \<open>n\<close>
  matrix of what the storage held. On zeroed storage this is the zero matrix.
\<close>

theorem first_consume_on_new_accumulator:
  "consume uninit CovarianceMatrix sample aux_data
     = Returns \<lparr>current_mean = sample,
                current_covariance_matrix =
                  map (\<lambda>i. map (\<lambda>j. uninit i j) [0..<length sample]) [0..<length sample],
                n_samples = 1\<rparr> []
   \<and> covariance_after (\<lambda>i j. 0) [sample]
     = Some (replicate (length sample) (replicate (length sample) 0))"
proof -
  have "map (\<lambda>i. map (\<lambda>j. 0 :: 'a) [0..<length sample]) [0..<length sample]
      = replicate (length sample) (replicate (length sample) 0)"
    by (simp add: map_replicate_const)
  then show ?thesis
    by (simp add: first_consume covariance_after_def get_def)
qed

text \<open>
  The worked recursion of the specification, in general: the samples 1, 3, 5 leave the
  mean 3 and add 5 to what the storage held; on zeroed storage the matrices after each
  sample are \<open>[[0]]\<close>, \<open>[[2]]\<close> and \<open>[[5]]\<close>.
\<close>

theorem worked_recursion_on_any_storage:
  "consume_all uninit CovarianceMatrix [[1 :: rat], [3], [5]]
     = Returns \<lparr>current_mean = [3], current_covariance_matrix = [[uninit 0 0 + 5]], n_samples = 3\<rparr>
         [2, 2, 3, 3]
   \<and> covariance_after (\<lambda>i j. 0) [[1 :: rat]] = Some [[0]]
   \<and> covariance_after (\<lambda>i j. 0) [[1 :: rat], [3]] = Some [[2]]
   \<and> covariance_after (\<lambda>i j. 0) [[1 :: rat], [3], [5]] = Some [[5]]"
proof -
  let ?s1 = "\<lparr>current_mean = [1 :: rat], current_covariance_matrix = [[uninit 0 0]], n_samples = 1\<rparr>"
  let ?s2 = "\<lparr>current_mean = [2 :: rat], current_covariance_matrix = [[uninit 0 0 + 2]], n_samples = 2\<rparr>"
  let ?s3 = "\<lparr>current_mean = [3 :: rat], current_covariance_matrix = [[uninit 0 0 + 5]], n_samples = 3\<rparr>"
  have 1: "consume uninit CovarianceMatrix [1 :: rat] () = Returns ?s1 []"
    by (simp add: first_consume)
  have 2: "consume uninit ?s1 [3] () = Returns ?s2 [2, 2]"
    using consume_accumulating[of ?s1 1 "[3]" uninit "()"]
    by (simp add: has_dimension_def)
  have 3: "consume uninit ?s2 [5] () = Returns ?s3 [3, 3]"
    using consume_accumulating[of ?s2 1 "[5]" uninit "()"]
    by (simp add: has_dimension_def numeral_3_eq_3)
  have "consume_all uninit CovarianceMatrix [[1 :: rat], [3], [5]] = Returns ?s3 [2, 2, 3, 3]"
    by (simp only: consume_all.simps 1 2 3 then_do.simps after_divisions.simps append.simps)
  moreover have "covariance_after (\<lambda>i j. 0) [[1 :: rat]] = Some [[0]]"
    "covariance_after (\<lambda>i j. 0) [[1 :: rat], [3]] = Some [[2]]"
    "covariance_after (\<lambda>i j. 0) [[1 :: rat], [3], [5]] = Some [[5]]"
    by code_simp+
  ultimately show ?thesis by simp
qed

text \<open>
  \<^verbatim>\<open>consume\<close> keeps the matrix symmetric: on an accumulator that holds a sample, has
  dimension \<open>n\<close> and a symmetric matrix, consuming a sample of length \<open>n\<close> returns an
  accumulator of dimension \<open>n\<close> with a symmetric matrix.
\<close>

theorem consume_preserves_symmetry:
  assumes "1 \<le> n_samples this" and "has_dimension this n" and "length sample = n"
    and "symmetric (current_covariance_matrix this)"
  shows "\<exists>this' ds. consume uninit this sample aux_data = Returns this' ds
           \<and> has_dimension this' n \<and> symmetric (current_covariance_matrix this')"
proof -
  have "\<exists>this' ds. consume uninit this sample aux_data = Returns this' ds"
    unfolding consume_accumulating[OF assms(1-3)] by (intro exI) (rule refl)
  then obtain this' ds where ret: "consume uninit this sample aux_data = Returns this' ds"
    by (elim exE)
  have "has_dimension this' n \<and> symmetric (current_covariance_matrix this') \<and> 2 \<le> n_samples this'"
    using assms ret by (rule consume_keeps_symmetry)
  then have "consume uninit this sample aux_data = Returns this' ds
      \<and> has_dimension this' n \<and> symmetric (current_covariance_matrix this')"
    using ret by simp
  then show ?thesis by (intro exI)
qed

theorem consume_preserves_symmetry_witness:
  "symmetric [[0, 1], [1, 4 :: rat]]
   \<and> consume (\<lambda>i j. 9)
        \<lparr>current_mean = [1, 2 :: rat], current_covariance_matrix = [[0, 1], [1, 4]], n_samples = 1\<rparr>
        [3, 5] ()
     = Returns
         \<lparr>current_mean = [2, 7 / 2], current_covariance_matrix = [[2, 4], [4, 17 / 2]],
            n_samples = 2\<rparr>
         [2, 2, 2, 2, 2, 2]
   \<and> symmetric [[2, 4], [4, 17 / 2 :: rat]]"
proof -
  let ?st = "\<lparr>current_mean = [1, 2 :: rat], current_covariance_matrix = [[0, 1], [1, 4]], n_samples = 1\<rparr>"
  have h1: "1 \<le> n_samples ?st" by simp
  have h2: "has_dimension ?st 2" by (simp add: has_dimension_def)
  have h3: "length [3, 5 :: rat] = 2" by simp
  have h4: "symmetric (current_covariance_matrix ?st)" by code_simp
  have ret: "consume (\<lambda>i j. 9) ?st [3, 5] ()
      = Returns \<lparr>current_mean = [2, 7 / 2], current_covariance_matrix = [[2, 4], [4, 17 / 2]],
            n_samples = 2\<rparr> [2, 2, 2, 2, 2, 2]"
    by code_simp
  obtain this' ds where r: "consume (\<lambda>i j. 9) ?st [3, 5] () = Returns this' ds"
    and s: "symmetric (current_covariance_matrix this')"
    using consume_preserves_symmetry[OF h1 h2 h3 h4, of "\<lambda>i j. 9" "()"] by (elim exE conjE)
  have "this' = \<lparr>current_mean = [2, 7 / 2], current_covariance_matrix = [[2, 4], [4, 17 / 2]],
            n_samples = 2\<rparr>"
    using r unfolding ret by simp
  then have "symmetric [[2, 4], [4, 17 / 2 :: rat]]"
    using s by simp
  then show ?thesis
    using h4 ret by simp
qed

text \<open>
  Where the storage that \<^verbatim>\<open>resize\<close> allocates is symmetric (zeroed storage is), every
  state that a new accumulator reaches by calls that return has a symmetric matrix.
\<close>

theorem reachable_symmetric_if_storage_symmetric:
  assumes "\<forall>i j. uninit i j = uninit j i"
    and "run uninit (CovarianceMatrix, []) calls = Returns (this', got') ds"
  shows "symmetric (current_covariance_matrix this')"
proof -
  have "this' = CovarianceMatrix \<or> accumulating_symmetric this'"
    using assms(1) run_keeps_symmetry[of uninit CovarianceMatrix "[]" calls this' got' ds] assms(2)
    by simp
  then show ?thesis
    by (auto simp: accumulating_symmetric_def CovarianceMatrix_def symmetric_def)
qed

theorem reachable_symmetric_if_storage_symmetric_witness:
  "run (\<lambda>i j. 0) (CovarianceMatrix, []) [Call_consume [1, 2 :: rat], Call_get, Call_consume [3, 5]]
     = Returns (\<lparr>current_mean = [2, 7 / 2], current_covariance_matrix = [[2, 3], [3, 9 / 2]],
                 n_samples = 2\<rparr>, [[[0, 0], [0, 0]]]) [2, 2, 2, 2, 2, 2]
   \<and> symmetric [[2, 3], [3, 9 / 2 :: rat]]"
proof -
  let ?st' = "\<lparr>current_mean = [2, 7 / 2 :: rat], current_covariance_matrix = [[2, 3], [3, 9 / 2]],
                 n_samples = 2\<rparr>"
  have ret: "run (\<lambda>i j. 0) (CovarianceMatrix, []) [Call_consume [1, 2 :: rat], Call_get, Call_consume [3, 5]]
     = Returns (?st', [[[0, 0], [0, 0]]]) [2, 2, 2, 2, 2, 2]"
    by code_simp
  have h: "\<forall>i j. (\<lambda>i j. 0 :: rat) i j = (\<lambda>i j. 0) j i" by simp
  have "symmetric (current_covariance_matrix ?st')"
    using reachable_symmetric_if_storage_symmetric[OF h ret] .
  then show ?thesis using ret by simp
qed

text \<open>No call of \<^verbatim>\<open>consume\<close> raises a failure, whatever the state and the sample.\<close>

theorem consume_never_raises:
  "consume uninit this sample aux_data \<noteq> Raises e"
proof (cases "n_samples this = 0")
  case True
  then show ?thesis by (simp add: consume_def)
next
  case False
  then have "divides_only_by (Suc (n_samples this)) (consume uninit this sample aux_data)"
    by (rule divides_only_by_consume)
  then show ?thesis by (auto simp: divides_only_by_def)
qed

end
